theory Spec2Isabelle
  imports Complex_Main "HOL-Library.Sublist"
begin

section \<open>Priorities and the urgency classifier\<close>

text \<open>
  The three canonical tiers are the Korean string literals of the source; they are named
  here by their meaning. \<open>PriorityRank\<close> of \<open>App.tsx\<close> adds the three legacy aliases.
  Points in time and durations are JavaScript numbers holding whole milliseconds and are
  modelled as \<open>int\<close>.
\<close>

datatype Canonical = CRITICAL | WARNING | SAFE

datatype PriorityRank = Canon Canonical | LEGACY_CRITICAL | LEGACY_WARNING | LEGACY_SAFE

definition HOUR_MS :: int where
  "HOUR_MS = 60 * 60 * 1000"

definition HALF_HOUR_MS :: int where
  "HALF_HOUR_MS = 30 * 60 * 1000"

definition INITIAL_EVENT_SKIP_WINDOW_MS :: int where
  "INITIAL_EVENT_SKIP_WINDOW_MS = 60 * 1000"

definition PRE_DEADLINE_THRESHOLDS_ASC :: "(string \<times> int) list" where
  "PRE_DEADLINE_THRESHOLDS_ASC =
     [(''pre-30m'', HALF_HOUR_MS), (''pre-1h'', HOUR_MS), (''pre-2h'', 2 * HOUR_MS),
      (''pre-3h'', 3 * HOUR_MS), (''pre-4h'', 4 * HOUR_MS), (''pre-5h'', 5 * HOUR_MS)]"

definition POST_DEADLINE_THRESHOLDS_ASC :: "(string \<times> int) list" where
  "POST_DEADLINE_THRESHOLDS_ASC =
     [(''post-1h'', HOUR_MS), (''post-6h'', 6 * HOUR_MS), (''post-24h'', 24 * HOUR_MS)]"

text \<open>\<open>toCanonicalPriority\<close> and \<open>toLegacyPriority\<close> of \<open>components/TodoItemCard.tsx\<close>.
  The garbled aliases the first one also accepts are strings outside \<open>PriorityRank\<close>.\<close>

fun toCanonicalPriority :: "PriorityRank \<Rightarrow> Canonical" where
  "toCanonicalPriority (Canon c) = c"
| "toCanonicalPriority LEGACY_CRITICAL = CRITICAL"
| "toCanonicalPriority LEGACY_WARNING = WARNING"
| "toCanonicalPriority LEGACY_SAFE = SAFE"

definition toLegacyPriority :: "Canonical \<Rightarrow> PriorityRank" where
  "toLegacyPriority priority =
     (if priority = CRITICAL then Canon CRITICAL
      else if priority = WARNING then Canon WARNING
      else Canon SAFE)"

text \<open>\<open>toLegacyPriority\<close> of \<open>App.tsx\<close>, a lookup in \<open>LEGACY_PRIORITY_MAP\<close>.\<close>

fun toLegacyPriority_App :: "Canonical \<Rightarrow> PriorityRank" where
  "toLegacyPriority_App CRITICAL = LEGACY_CRITICAL"
| "toLegacyPriority_App WARNING = LEGACY_WARNING"
| "toLegacyPriority_App SAFE = LEGACY_SAFE"

definition CRITICAL_THRESHOLD_HOURS :: rat where
  "CRITICAL_THRESHOLD_HOURS = 6"

definition WARNING_THRESHOLD_HOURS :: rat where
  "WARNING_THRESHOLD_HOURS = 24"

text \<open>
  The quotient \<open>(deadline.getTime() - Date.now()) / HOUR_MS\<close>. The code computes it as
  a double and compares it with 0, 6 and 24 only; the model takes the exact quotient.
  For these comparisons the two agree: 0, 6 and 24 are doubles, rounding to the nearest
  double is monotone, and a whole number of milliseconds that is not exactly 0, 6 or 24
  hours gives a quotient at least 1/3600000 away from that bound, far more than the
  spacing of doubles there. The effort estimate, an arbitrary double, is never compared
  with this quotient by the classifiers modelled here.
\<close>

definition remainingHours :: "int \<Rightarrow> int \<Rightarrow> rat" where
  "remainingHours deadline now = of_int (deadline - now) / of_int HOUR_MS"

text \<open>\<open>calculateLocalPriority\<close> of \<open>components/TodoItemCard.tsx\<close>. The deadline is
  \<open>Date | null\<close>, the second parameter (\<open>_estimatedTime\<close> in the source) is not read, and
  the last argument is the value \<open>Date.now()\<close> returns inside the call.\<close>

definition calculateLocalPriority :: "int option \<Rightarrow> rat option \<Rightarrow> int \<Rightarrow> PriorityRank" where
  "calculateLocalPriority deadline unused_estimatedTime now =
     (case deadline of
        None \<Rightarrow> toLegacyPriority SAFE
      | Some d \<Rightarrow>
          if remainingHours d now \<le> 0 then toLegacyPriority CRITICAL
          else if remainingHours d now \<le> 6 then toLegacyPriority CRITICAL
          else if remainingHours d now \<le> 24 then toLegacyPriority WARNING
          else toLegacyPriority SAFE)"

text \<open>\<open>calculatePriority\<close> of \<open>App.tsx\<close>.\<close>

definition calculatePriority :: "int option \<Rightarrow> rat option \<Rightarrow> int \<Rightarrow> PriorityRank" where
  "calculatePriority deadline unused_estimatedTime now =
     (case deadline of
        None \<Rightarrow> toLegacyPriority_App SAFE
      | Some d \<Rightarrow>
          if remainingHours d now \<le> 0 then toLegacyPriority_App CRITICAL
          else if remainingHours d now \<le> CRITICAL_THRESHOLD_HOURS then toLegacyPriority_App CRITICAL
          else if remainingHours d now \<le> WARNING_THRESHOLD_HOURS then toLegacyPriority_App WARNING
          else toLegacyPriority_App SAFE)"


section \<open>The alert dispatcher\<close>

text \<open>The five persona styles of \<open>NagStyle\<close> (Korean string literals in the source).\<close>

datatype NagStyle = HARSH_NAGGER | SARCASTIC_FRIEND | FACT_PROFESSOR | CUTE_BUT_BLUNT | TSUNDERE

text \<open>The refs the speech effect of \<open>TodoItemCard\<close> reads and writes.\<close>

record DispatcherRefs =
  hasSkippedInitialEventRef :: bool
  prevStyleRef :: NagStyle
  pendingSpeechKeyRef :: "int option"
  lastSpeechKeyRef :: int
  lastLoadedKeyRef :: "int option"
  initialPriorityRef :: PriorityRank

text \<open>What one run of the effect does to the outside: a browser notification, or a call
  of \<open>onSpeak(message, style)\<close> (the card passes no \<open>options\<close>).\<close>

datatype DispatchAction = Notify string | OnSpeak string NagStyle

text \<open>The path one run of the effect takes: it returns before looking at the pending
  alert, it discards the alert after a style change, it swallows the first alert, or it
  dispatches.\<close>

datatype DispatchResult = NotReady | StyleChanged | SkippedInitial | Dispatched "DispatchAction list"

text \<open>\<open>const withinWindow = createdAtMs && Date.now() - createdAtMs < \<dots>\<close>: a missing
  creation time and the time value 0 are falsy.\<close>

definition withinWindow :: "int option \<Rightarrow> int \<Rightarrow> bool" where
  "withinWindow createdAt now =
     (case createdAt of
        None \<Rightarrow> False
      | Some createdAtMs \<Rightarrow> createdAtMs \<noteq> 0 \<and> now - createdAtMs < INITIAL_EVENT_SKIP_WINDOW_MS)"

text \<open>The speech effect of \<open>components/TodoItemCard.tsx\<close>. \<open>displayMessage\<close> is
  \<open>shouldShowNag ? aiMessage : null\<close>; \<open>priority\<close> is the live tier the parent passes
  down, which this effect does not read; \<open>now\<close> is \<open>Date.now()\<close>. The effect is
  entered with a message only when \<open>shouldShowNag\<close> holds and \<open>aiMessage\<close> is a non-empty
  string.\<close>

definition dispatchEffect ::
  "bool \<Rightarrow> string option \<Rightarrow> bool \<Rightarrow> NagStyle \<Rightarrow> int \<Rightarrow> int option \<Rightarrow> PriorityRank \<Rightarrow> int
   \<Rightarrow> bool \<Rightarrow> bool \<Rightarrow> DispatcherRefs \<Rightarrow> DispatcherRefs \<times> DispatchResult" where
  "dispatchEffect shouldShowNag aiMessage isCompleted selectedStyle nagRefreshKey createdAt
       priority now notificationsEnabled speechEnabled refs =
     (if \<not> shouldShowNag then (refs, NotReady)
      else case aiMessage of
        None \<Rightarrow> (refs, NotReady)
      | Some displayMessage \<Rightarrow>
          if displayMessage = [] \<or> isCompleted then (refs, NotReady)
          else
           (let styleJustChanged = (prevStyleRef refs \<noteq> selectedStyle);
                refs1 = refs\<lparr>prevStyleRef := selectedStyle\<rparr>
            in if styleJustChanged then
                 (refs1\<lparr>lastSpeechKeyRef := nagRefreshKey, pendingSpeechKeyRef := None\<rparr>,
                  StyleChanged)
               else if pendingSpeechKeyRef refs1 = Some nagRefreshKey
                       \<and> lastLoadedKeyRef refs1 = Some nagRefreshKey
                       \<and> lastSpeechKeyRef refs1 \<noteq> nagRefreshKey then
                 (let shouldSkipInitial =
                        (withinWindow createdAt now
                         \<and> initialPriorityRef refs1 \<noteq> toLegacyPriority SAFE)
                  in if \<not> hasSkippedInitialEventRef refs1 \<and> shouldSkipInitial then
                       (refs1\<lparr>hasSkippedInitialEventRef := True,
                              lastSpeechKeyRef := nagRefreshKey,
                              pendingSpeechKeyRef := None\<rparr>,
                        SkippedInitial)
                     else
                       (refs1\<lparr>hasSkippedInitialEventRef := True,
                              lastSpeechKeyRef := nagRefreshKey,
                              pendingSpeechKeyRef := None\<rparr>,
                        Dispatched
                          ((if notificationsEnabled then [Notify displayMessage] else [])
                           @ (if speechEnabled \<and> shouldShowNag
                              then [OnSpeak displayMessage selectedStyle] else []))))
               else (refs1, NotReady)))"


text \<open>The effect reaches the pending alert of key \<open>nagRefreshKey\<close>: a message is
  shown, the task is open, the style did not change, and the key is pending, loaded and
  not yet spoken.\<close>

definition alertReady ::
  "bool \<Rightarrow> string option \<Rightarrow> bool \<Rightarrow> NagStyle \<Rightarrow> int \<Rightarrow> DispatcherRefs \<Rightarrow> bool" where
  "alertReady shouldShowNag aiMessage isCompleted selectedStyle nagRefreshKey refs =
     (shouldShowNag \<and> aiMessage \<noteq> None \<and> aiMessage \<noteq> Some [] \<and> \<not> isCompleted
      \<and> prevStyleRef refs = selectedStyle
      \<and> pendingSpeechKeyRef refs = Some nagRefreshKey
      \<and> lastLoadedKeyRef refs = Some nagRefreshKey
      \<and> lastSpeechKeyRef refs \<noteq> nagRefreshKey)"


section \<open>The threshold scheduler\<close>

text \<open>
  The refs of one mounted \<open>TodoItemCard\<close> that \<open>evaluateSchedule\<close> reads and writes,
  with the \<open>shouldShowNag\<close> state it sets. Every call of \<open>triggerNagEvent\<close> is returned
  as an alert event, tagged with what caused it.
\<close>

record SchedulerState =
  prevPriorityRef :: PriorityRank
  prevRemainingRef :: "int option"
  triggeredThresholdsRef :: "string set"
  shouldShowNag :: bool

datatype AlertEvent = TierTransition | ThresholdFired string

text \<open>The two \<open>for \<dots> of\<close> loops: the first threshold that matches is marked and the
  loop is left with \<open>break\<close>.\<close>

fun scanPre :: "(string \<times> int) list \<Rightarrow> int option \<Rightarrow> int \<Rightarrow> string set \<Rightarrow> string option" where
  "scanPre [] prevDiff diff triggered = None"
| "scanPre ((key, ms) # rest) prevDiff diff triggered =
     (let prevAbove = (case prevDiff of None \<Rightarrow> True | Some p \<Rightarrow> p > ms)
      in if prevAbove \<and> diff \<le> ms \<and> key \<notin> triggered then Some key
         else scanPre rest prevDiff diff triggered)"

fun scanPost :: "(string \<times> int) list \<Rightarrow> int \<Rightarrow> int \<Rightarrow> string set \<Rightarrow> string option" where
  "scanPost [] prevElapsed elapsed triggered = None"
| "scanPost ((key, ms) # rest) prevElapsed elapsed triggered =
     (let prevBelow = prevElapsed < ms
      in if prevBelow \<and> elapsed \<ge> ms \<and> key \<notin> triggered then Some key
         else scanPost rest prevElapsed elapsed triggered)"

text \<open>The block guarded by \<open>!eventTriggered\<close>: the fired keys in the order fired, and
  the updated key set.\<close>

definition evaluateThresholds :: "int option \<Rightarrow> int \<Rightarrow> string set \<Rightarrow> string list \<times> string set" where
  "evaluateThresholds prevDiff diff triggered =
     (if diff \<ge> 0 then
        (let (fired1, triggered1) =
               (case scanPre PRE_DEADLINE_THRESHOLDS_ASC prevDiff diff triggered of
                  None \<Rightarrow> ([], triggered)
                | Some key \<Rightarrow> ([key], insert key triggered));
             prevPositive = (case prevDiff of None \<Rightarrow> True | Some p \<Rightarrow> p > 0)
         in if prevPositive \<and> diff \<le> 0 \<and> ''deadline-hit'' \<notin> triggered1
            then (fired1 @ [''deadline-hit''], insert ''deadline-hit'' triggered1)
            else (fired1, triggered1))
      else
        (let prevElapsed = (case prevDiff of None \<Rightarrow> 0 | Some p \<Rightarrow> max 0 (- p));
             elapsed = \<bar>diff\<bar>
         in case scanPost POST_DEADLINE_THRESHOLDS_ASC prevElapsed elapsed triggered of
              None \<Rightarrow> ([], triggered)
            | Some key \<Rightarrow> ([key], insert key triggered)))"

text \<open>The comparison of the previous with the live tier: the events it triggers and the
  state after it.\<close>

definition tierTransition :: "PriorityRank \<Rightarrow> SchedulerState \<Rightarrow> SchedulerState \<times> AlertEvent list" where
  "tierTransition livePriority st =
     (let prevPriority = prevPriorityRef st
      in if toCanonicalPriority prevPriority \<noteq> toCanonicalPriority livePriority then
           (st\<lparr>shouldShowNag := (toCanonicalPriority livePriority \<noteq> SAFE),
               triggeredThresholdsRef :=
                 (if toCanonicalPriority livePriority \<noteq> CRITICAL then {}
                  else triggeredThresholdsRef st),
               prevPriorityRef := livePriority\<rparr>,
            if toCanonicalPriority prevPriority = SAFE \<and> toCanonicalPriority livePriority = WARNING
            then [TierTransition]
            else if toCanonicalPriority prevPriority \<noteq> CRITICAL
                    \<and> toCanonicalPriority livePriority = CRITICAL
            then [TierTransition]
            else [])
         else (st, []))"

text \<open>\<open>evaluateSchedule(diff)\<close> for a task with the given deadline and estimate.
  \<open>isCompleted\<close> is the value the effect closed over and \<open>now\<close> the clock value read
  inside \<open>calculateLocalPriority\<close>. The effect defines \<open>evaluateSchedule\<close> only when the
  task has a deadline.\<close>

definition evaluateSchedule ::
  "int \<Rightarrow> rat option \<Rightarrow> bool \<Rightarrow> int \<Rightarrow> SchedulerState \<Rightarrow> int \<Rightarrow> SchedulerState \<times> AlertEvent list" where
  "evaluateSchedule deadline estimatedTime isCompleted now st diff =
     (if isCompleted then
        (st\<lparr>prevRemainingRef := Some diff, triggeredThresholdsRef := {}\<rparr>, [])
      else
        (let livePriority = calculateLocalPriority (Some deadline) estimatedTime now;
             (st1, events) = tierTransition livePriority st
         in if toCanonicalPriority livePriority \<noteq> CRITICAL then
              (st1\<lparr>prevRemainingRef := Some diff\<rparr>, events)
            else if events = [] then
              (let (fired, triggered) =
                     evaluateThresholds (prevRemainingRef st1) diff (triggeredThresholdsRef st1)
               in (st1\<lparr>triggeredThresholdsRef := triggered, prevRemainingRef := Some diff\<rparr>,
                   map ThresholdFired fired))
            else (st1\<lparr>prevRemainingRef := Some diff\<rparr>, events)))"

text \<open>\<open>calc\<close>, the body of one tick: \<open>clock\<close> is the pair of the two reads of
  \<open>Date.now()\<close>, the first in \<open>calc\<close> itself and the second in the classifier.\<close>

definition calc ::
  "int \<Rightarrow> rat option \<Rightarrow> bool \<Rightarrow> SchedulerState \<Rightarrow> int \<times> int \<Rightarrow> SchedulerState \<times> AlertEvent list" where
  "calc deadline estimatedTime isCompleted st clock =
     evaluateSchedule deadline estimatedTime isCompleted (snd clock) st (deadline - fst clock)"

text \<open>A sequence of ticks of one effect instance (same deadline, estimate and completion
  flag), with every event triggered on the way.\<close>

fun ticks ::
  "int \<Rightarrow> rat option \<Rightarrow> bool \<Rightarrow> SchedulerState \<Rightarrow> (int \<times> int) list \<Rightarrow> SchedulerState \<times> AlertEvent list" where
  "ticks deadline estimatedTime isCompleted st [] = (st, [])"
| "ticks deadline estimatedTime isCompleted st (clock # rest) =
     (let (st1, events1) = calc deadline estimatedTime isCompleted st clock;
          (st2, events2) = ticks deadline estimatedTime isCompleted st1 rest
      in (st2, events1 @ events2))"

text \<open>The threshold keys among a list of events.\<close>

fun firedKeys :: "AlertEvent list \<Rightarrow> string list" where
  "firedKeys [] = []"
| "firedKeys (TierTransition # rest) = firedKeys rest"
| "firedKeys (ThresholdFired key # rest) = key # firedKeys rest"

text \<open>
  A tick leaves CRITICAL when the previous tier is CRITICAL and the live tier is not.
  \<open>staysCritical\<close> says that no tick of a sequence of ticks of an open task does so.
  A tick on which the tier changes between SAFE and WARNING may occur; it clears the key
  set, which holds no key fired since mount at that point.
\<close>

definition leavesCritical :: "int \<Rightarrow> rat option \<Rightarrow> int \<Rightarrow> SchedulerState \<Rightarrow> bool" where
  "leavesCritical deadline estimatedTime now st =
     (toCanonicalPriority (prevPriorityRef st) = CRITICAL
      \<and> toCanonicalPriority (calculateLocalPriority (Some deadline) estimatedTime now) \<noteq> CRITICAL)"

fun staysCritical ::
  "int \<Rightarrow> rat option \<Rightarrow> SchedulerState \<Rightarrow> (int \<times> int) list \<Rightarrow> bool" where
  "staysCritical deadline estimatedTime st [] = True"
| "staysCritical deadline estimatedTime st (clock # rest) =
     (\<not> leavesCritical deadline estimatedTime (snd clock) st
      \<and> staysCritical deadline estimatedTime
           (fst (calc deadline estimatedTime False st clock)) rest)"

text \<open>The keys \<open>fired\<close> so far in a sequence of ticks: no key twice, each in the key
  set, and, if there is any, the previous tier is CRITICAL.\<close>

definition firedInv :: "SchedulerState \<Rightarrow> string list \<Rightarrow> bool" where
  "firedInv st fired =
     (distinct fired \<and> set fired \<subseteq> triggeredThresholdsRef st
      \<and> (fired = [] \<or> toCanonicalPriority (prevPriorityRef st) = CRITICAL))"


section \<open>Normalising what the data store delivers\<close>

text \<open>
  A JavaScript number is a finite value, \<open>NaN\<close> or one of the infinities. A value of type
  \<open>unknown\<close> is a number, a string, or something else (\<open>null\<close>, \<open>undefined\<close>, an object,
  a boolean). What the built-in conversion \<open>Number(value.trim())\<close> yields for a string is
  carried with the string, since the conversion is not code of this repository.
\<close>

datatype jsnumber = Finite rat | NaN | PosInfinity | NegInfinity

fun Number_isFinite :: "jsnumber \<Rightarrow> bool" where
  "Number_isFinite (Finite r) = True"
| "Number_isFinite NaN = False"
| "Number_isFinite PosInfinity = False"
| "Number_isFinite NegInfinity = False"

datatype unknown = UNumber jsnumber | UString string jsnumber | UOther

definition normalizeEstimatedTime :: "unknown \<Rightarrow> jsnumber option" where
  "normalizeEstimatedTime v =
     (case v of
        UNumber n \<Rightarrow> if Number_isFinite n then Some n else None
      | UString text parsed \<Rightarrow> if Number_isFinite parsed then Some parsed else None
      | UOther \<Rightarrow> None)"

text \<open>
  A \<open>Date\<close> holds a time value that is a whole number of milliseconds or \<open>NaN\<close> (an
  invalid date), the latter modelled as \<open>None\<close>. The argument of \<open>toDateSafe\<close> is
  \<open>null\<close>, \<open>undefined\<close>, a \<open>Date\<close>, a Firestore \<open>Timestamp\<close> (carried here as the
  \<open>Date\<close> its \<open>toDate()\<close> returns) or a string (carried with the \<open>Date\<close> that
  \<open>new Date(value)\<close> builds from it).
\<close>

datatype Date = Date (getTime: "int option")

datatype DateInput = DNull | DUndefined | DDate Date | DTimestamp Date | DString string Date

definition toDateSafe :: "DateInput \<Rightarrow> Date option" where
  "toDateSafe v =
     (case v of
        DNull \<Rightarrow> None
      | DUndefined \<Rightarrow> None
      | DDate d \<Rightarrow> if getTime d = None then None else Some d
      | DTimestamp d \<Rightarrow> Some d
      | DString text parsed \<Rightarrow>
          if text = [] then None
          else if getTime parsed = None then None else Some parsed)"


section \<open>The speech queue\<close>

text \<open>
  A queued job. The pair of continuations \<open>resolve\<close>/\<open>reject\<close> belongs to the promise
  \<open>handleSpeak\<close> created for the job; the promise is identified by a number, allotted in
  the order of creation.
\<close>

record SpeechQueueItem =
  message :: string
  style :: NagStyle
  promise :: nat

text \<open>
  \<open>flushSpeechQueue\<close> is asynchronous: it runs until it awaits the synthesis request or
  the end of the playback, and is resumed by the event loop when that settles. A call
  that is suspended is kept as the job it took from the queue and the point where it
  waits.
\<close>

datatype Phase = AwaitingFetch | AwaitingPlayback

text \<open>
  The refs and state of \<open>App\<close> the queue uses. An \<open>Audio\<close> element is identified by the
  promise number of the job it was created for; \<open>pausedAudio\<close> holds the elements on
  which \<open>pause()\<close> was called, which no code of the repository ever plays again.
\<close>

record SpeechState =
  speechEnabled :: bool
  selectedStyle :: NagStyle
  speechCacheRef :: "NagStyle \<times> string \<Rightarrow> string option"
  speechQueueRef :: "SpeechQueueItem list"
  isSpeakingRef :: bool
  audioRef :: "nat option"
  flights :: "(SpeechQueueItem \<times> Phase) list"
  pausedAudio :: "nat set"
  nextPromise :: nat

text \<open>What the queue does to the outside: it posts a synthesis request, starts or pauses
  an \<open>Audio\<close> element, and settles a job's promise.\<close>

datatype SpeechAction =
    FetchTts string NagStyle
  | Play nat
  | Pause nat
  | Resolve nat
  | Reject nat

text \<open>The promise executor: a new \<open>Audio\<close> is stored in \<open>audioRef\<close> and played, and the
  call waits for \<open>onended\<close>, \<open>onerror\<close> or the rejection of \<open>play()\<close>.\<close>

definition startPlayback :: "SpeechQueueItem \<Rightarrow> SpeechState \<Rightarrow> SpeechState \<times> SpeechAction list" where
  "startPlayback job s = (s\<lparr>audioRef := Some (promise job)\<rparr>, [Play (promise job)])"

text \<open>\<open>flushSpeechQueue\<close> up to its first \<open>await\<close>. The first argument is the value of
  \<open>speechEnabled\<close> the callback closed over. The cache key \<open>`${style}:${message}`\<close> is
  the pair of style and message (no style name contains a colon).\<close>

definition flushSpeechQueue :: "bool \<Rightarrow> SpeechState \<Rightarrow> SpeechState \<times> SpeechAction list" where
  "flushSpeechQueue enabled s =
     (if \<not> enabled \<or> isSpeakingRef s then (s, [])
      else case speechQueueRef s of
        [] \<Rightarrow> (s, [])
      | nextJob # rest \<Rightarrow>
          (let s1 = s\<lparr>speechQueueRef := rest, isSpeakingRef := True\<rparr>;
               cachedUrl = speechCacheRef s1 (style nextJob, message nextJob)
           in if cachedUrl = None \<or> cachedUrl = Some [] then
                (s1\<lparr>flights := flights s1 @ [(nextJob, AwaitingFetch)]\<rparr>,
                 [FetchTts (message nextJob) (style nextJob)])
              else
                (let (s2, acts) = startPlayback nextJob s1
                 in (s2\<lparr>flights := flights s2 @ [(nextJob, AwaitingPlayback)]\<rparr>, acts))))"

text \<open>The end of a call: \<open>nextJob.resolve()\<close> after the \<open>try\<close> block or
  \<open>nextJob.reject(\<dots>)\<close> in \<open>catch\<close>, then the \<open>finally\<close> block. A suspended call closed
  over \<open>speechEnabled = true\<close>, or it would have returned at once, so the call of
  \<open>flushSpeechQueue\<close> in \<open>finally\<close> sees that value.\<close>

definition settle :: "SpeechQueueItem \<Rightarrow> bool \<Rightarrow> SpeechState \<Rightarrow> SpeechState \<times> SpeechAction list" where
  "settle job ok s =
     (let s1 = s\<lparr>flights := filter (\<lambda>(j, ph). promise j \<noteq> promise job) (flights s),
                 isSpeakingRef := False\<rparr>;
          (s2, acts) = (if speechQueueRef s1 \<noteq> [] then flushSpeechQueue True s1 else (s1, []))
      in (s2, (if ok then Resolve (promise job) else Reject (promise job)) # acts))"

text \<open>The suspended call, if any, that holds the job of the given promise at the given
  point.\<close>

definition flightJob :: "nat \<Rightarrow> Phase \<Rightarrow> SpeechState \<Rightarrow> SpeechQueueItem option" where
  "flightJob p ph s =
     map_option fst (List.find (\<lambda>(j, ph'). promise j = p \<and> ph' = ph) (flights s))"

text \<open>\<open>currentAudio.pause(); currentAudio.currentTime = 0\<close> on the element in
  \<open>audioRef\<close>, if there is one.\<close>

definition pauseCurrent :: "SpeechState \<Rightarrow> SpeechState \<times> SpeechAction list" where
  "pauseCurrent s =
     (case audioRef s of
        None \<Rightarrow> (s, [])
      | Some currentAudio \<Rightarrow>
          (s\<lparr>pausedAudio := insert currentAudio (pausedAudio s)\<rparr>, [Pause currentAudio]))"

text \<open>What \<open>handleSpeak\<close> returns: \<open>Promise.resolve()\<close>, or the new promise of the job
  it queued.\<close>

datatype SpeakResult = ResolvedImmediately | Pending nat

text \<open>\<open>handleSpeak(message, style, options)\<close>; \<open>interrupt\<close> tells whether
  \<open>options?.interrupt\<close> is truthy.\<close>

definition handleSpeak ::
  "string \<Rightarrow> NagStyle option \<Rightarrow> bool \<Rightarrow> SpeechState \<Rightarrow> SpeakResult \<times> SpeechState \<times> SpeechAction list" where
  "handleSpeak msg styleArg interrupt s =
     (if \<not> speechEnabled s \<or> msg = [] then (ResolvedImmediately, s, [])
      else
        (let resolvedStyle = (case styleArg of None \<Rightarrow> selectedStyle s | Some st \<Rightarrow> st);
             (s1, acts1) =
               (if interrupt then
                  (let (sp, actsp) = pauseCurrent (s\<lparr>speechQueueRef := []\<rparr>)
                   in (sp\<lparr>isSpeakingRef := False\<rparr>, actsp))
                else (s, []));
             job = \<lparr>message = msg, style = resolvedStyle, promise = nextPromise s1\<rparr>;
             s2 = s1\<lparr>speechQueueRef := speechQueueRef s1 @ [job],
                     nextPromise := Suc (nextPromise s1)\<rparr>;
             (s3, acts3) = flushSpeechQueue (speechEnabled s) s2
         in (Pending (promise job), s3, acts1 @ acts3)))"

text \<open>The effect that runs when \<open>speechEnabled\<close> changes.\<close>

definition speechEnabledEffect :: "SpeechState \<Rightarrow> SpeechState \<times> SpeechAction list" where
  "speechEnabledEffect s =
     (if \<not> speechEnabled s then
        (let (sp, actsp) = pauseCurrent (s\<lparr>speechQueueRef := [], isSpeakingRef := False\<rparr>)
         in (sp, actsp))
      else flushSpeechQueue (speechEnabled s) s)"

text \<open>
  What the event loop can deliver to the queue: a call of \<open>handleSpeak\<close>, a click on the
  speech switch, and, for the suspended call of a given promise, the answer to its
  synthesis request (with \<open>payload.format\<close> and \<open>payload.audioBase64\<close>) or its failure
  (a network error, a status that is not ok, a body that is not JSON), and the
  \<open>onended\<close> or \<open>onerror\<close> event of its \<open>Audio\<close> or the rejection of \<open>play()\<close>.
\<close>

datatype SpeechEvent =
    Speak string "NagStyle option" bool
  | ToggleSpeech
  | FetchOk nat "string option" string
  | FetchFailed nat
  | AudioEnded nat
  | AudioError nat
  | PlayRejected nat

text \<open>One turn of the event loop. An event that no suspended call waits for (and
  \<open>onended\<close> of a paused element) does not happen: the state stays as it is.\<close>

fun step :: "SpeechEvent \<Rightarrow> SpeechState \<Rightarrow> SpeechState \<times> SpeechAction list" where
  "step (Speak msg styleArg interrupt) s = snd (handleSpeak msg styleArg interrupt s)"
| "step ToggleSpeech s = speechEnabledEffect (s\<lparr>speechEnabled := \<not> speechEnabled s\<rparr>)"
| "step (FetchOk p format audioBase64) s =
     (case flightJob p AwaitingFetch s of
        None \<Rightarrow> (s, [])
      | Some job \<Rightarrow>
          (let cachedUrl = ''data:audio/'' @ (case format of None \<Rightarrow> ''mp3'' | Some f \<Rightarrow> f)
                             @ '';base64,'' @ audioBase64;
               s1 = s\<lparr>speechCacheRef := (speechCacheRef s)((style job, message job) \<mapsto> cachedUrl)\<rparr>;
               (s2, acts) = startPlayback job s1
           in (s2\<lparr>flights := map (\<lambda>(j, ph). if promise j = p then (j, AwaitingPlayback) else (j, ph))
                                 (flights s2)\<rparr>, acts)))"
| "step (FetchFailed p) s =
     (case flightJob p AwaitingFetch s of
        None \<Rightarrow> (s, [])
      | Some job \<Rightarrow> settle job False s)"
| "step (AudioEnded p) s =
     (case flightJob p AwaitingPlayback s of
        None \<Rightarrow> (s, [])
      | Some job \<Rightarrow>
          if p \<in> pausedAudio s then (s, [])
          else settle job True (s\<lparr>audioRef := None\<rparr>))"
| "step (AudioError p) s =
     (case flightJob p AwaitingPlayback s of
        None \<Rightarrow> (s, [])
      | Some job \<Rightarrow> settle job False (s\<lparr>audioRef := None\<rparr>))"
| "step (PlayRejected p) s =
     (case flightJob p AwaitingPlayback s of
        None \<Rightarrow> (s, [])
      | Some job \<Rightarrow> settle job False s)"

text \<open>A sequence of turns, with everything done to the outside on the way.\<close>

fun run :: "SpeechEvent list \<Rightarrow> SpeechState \<Rightarrow> SpeechState \<times> SpeechAction list" where
  "run [] s = (s, [])"
| "run (e # es) s =
     (let (s1, acts1) = step e s;
          (s2, acts2) = run es s1
      in (s2, acts1 @ acts2))"

text \<open>The promises a list of actions settles and the elements it starts, in order.\<close>

fun settledIds :: "SpeechAction list \<Rightarrow> nat list" where
  "settledIds [] = []"
| "settledIds (Resolve p # rest) = p # settledIds rest"
| "settledIds (Reject p # rest) = p # settledIds rest"
| "settledIds (a # rest) = settledIds rest"

fun playedIds :: "SpeechAction list \<Rightarrow> nat list" where
  "playedIds [] = []"
| "playedIds (Play p # rest) = p # playedIds rest"
| "playedIds (a # rest) = playedIds rest"



text \<open>The promises held by the suspended calls, by the queue, and by the calls that wait
  for a playback to end.\<close>

definition flightIds :: "SpeechState \<Rightarrow> nat list" where
  "flightIds s = map (\<lambda>(j, ph). promise j) (flights s)"

definition queueIds :: "SpeechState \<Rightarrow> nat list" where
  "queueIds s = map promise (speechQueueRef s)"

definition playingIds :: "SpeechState \<Rightarrow> nat list" where
  "playingIds s = map (\<lambda>(j, ph). promise j) (filter (\<lambda>(j, ph). ph = AwaitingPlayback) (flights s))"

text \<open>The point at which \<open>flushSpeechQueue\<close> suspends with a job: at the playback when
  the cache holds its audio, at the synthesis request otherwise.\<close>

definition phaseFor :: "SpeechQueueItem \<Rightarrow> SpeechState \<Rightarrow> Phase" where
  "phaseFor j s =
     (if speechCacheRef s (style j, message j) = None \<or> speechCacheRef s (style j, message j) = Some []
      then AwaitingFetch else AwaitingPlayback)"

text \<open>
  The state of a queue that has only seen calls without \<open>interrupt\<close> since it was idle
  with \<open>n0\<close> promises allotted, and the actions \<open>tr\<close> it has done since: at most one call
  is suspended, exactly when \<open>isSpeakingRef\<close> is set; jobs wait only while a call is
  suspended; the promises allotted since are, in order, the settled ones, the one of the
  suspended call and the queued ones; and every element played belongs to a settled
  promise or to the suspended call, in the same order.
\<close>

definition serialInv :: "nat \<Rightarrow> SpeechState \<Rightarrow> SpeechAction list \<Rightarrow> bool" where
  "serialInv n0 s tr =
     (speechEnabled s \<and> length (flights s) \<le> 1 \<and> (isSpeakingRef s = (flights s \<noteq> []))
      \<and> (flights s = [] \<longrightarrow> speechQueueRef s = [])
      \<and> n0 \<le> nextPromise s
      \<and> settledIds tr @ flightIds s @ queueIds s = [n0..<nextPromise s]
      \<and> subseq (playedIds tr) (settledIds tr @ playingIds s))"

text \<open>A promise is dropped when it was allotted but no queue entry and no suspended call
  holds its continuations.\<close>

definition dropped :: "nat \<Rightarrow> SpeechState \<Rightarrow> bool" where
  "dropped p s = (p < nextPromise s \<and> p \<notin> set (flightIds s) \<and> p \<notin> set (queueIds s))"


section \<open>The classifier and the estimate\<close>

lemma remainingHours_le:
  "(remainingHours d now \<le> 0) = (d - now \<le> 0)"
  "(remainingHours d now \<le> 6) = (d - now \<le> 6 * HOUR_MS)"
  "(remainingHours d now \<le> 24) = (d - now \<le> 24 * HOUR_MS)"
  by (simp_all add: remainingHours_def HOUR_MS_def divide_le_eq del: of_int_diff)

lemma remainingHours_10h: "remainingHours 36000000 0 = 10"
  by (simp add: remainingHours_def HOUR_MS_def)

text \<open>
  Claim C2, as amended. With time remaining and an estimate given, the classifiers in
  use, \<open>calculateLocalPriority\<close> of \<open>components/TodoItemCard.tsx\<close> and
  \<open>calculatePriority\<close> of \<open>App.tsx\<close>, do not read the estimate: they return CRITICAL
  up to 6 remaining hours, WARNING above 6 and up to 24, and SAFE beyond, the same as
  without an estimate. The two bounds are bounds on the whole milliseconds left.
\<close>

theorem C2_estimate_ignored:
  assumes "0 < remainingHours d now"
  shows "calculateLocalPriority (Some d) (Some e) now =
         (if remainingHours d now \<le> 6 then Canon CRITICAL
          else if remainingHours d now \<le> 24 then Canon WARNING else Canon SAFE)
     \<and> calculatePriority (Some d) (Some e) now =
         (if remainingHours d now \<le> 6 then LEGACY_CRITICAL
          else if remainingHours d now \<le> 24 then LEGACY_WARNING else LEGACY_SAFE)
     \<and> calculateLocalPriority (Some d) (Some e) now = calculateLocalPriority (Some d) None now
     \<and> calculatePriority (Some d) (Some e) now = calculatePriority (Some d) None now
     \<and> (remainingHours d now \<le> 6) = (d - now \<le> 6 * HOUR_MS)
     \<and> (remainingHours d now \<le> 24) = (d - now \<le> 24 * HOUR_MS)"
  using assms remainingHours_le(2,3)[of d now]
  by (auto simp: calculateLocalPriority_def calculatePriority_def
        toLegacyPriority_def CRITICAL_THRESHOLD_HOURS_def WARNING_THRESHOLD_HOURS_def)

text \<open>Ten hours before the deadline, with estimates of 1 and 11 hours.\<close>

theorem C2_witness:
  "0 < remainingHours 36000000 0
   \<and> calculateLocalPriority (Some 36000000) (Some 1) 0 = Canon WARNING
   \<and> calculateLocalPriority (Some 36000000) (Some 11) 0 = Canon WARNING
   \<and> calculatePriority (Some 36000000) (Some 1) 0 = LEGACY_WARNING"
proof -
  have h: "0 < remainingHours 36000000 0" by (simp add: remainingHours_10h)
  show ?thesis
    using h C2_estimate_ignored [OF h, of 1] C2_estimate_ignored [OF h, of 11]
    by (simp add: remainingHours_10h)
qed

text \<open>Ten hours before the deadline with an estimate of one hour, the remaining time is
  more than twice the estimate, and both classifiers in use answer WARNING, not SAFE.\<close>

theorem C2_counterexample:
  "0 < remainingHours 36000000 0 \<and> 2 * 1 \<le> remainingHours 36000000 0
   \<and> toCanonicalPriority (calculateLocalPriority (Some 36000000) (Some 1) 0) \<noteq> SAFE
   \<and> toCanonicalPriority (calculatePriority (Some 36000000) (Some 1) 0) \<noteq> SAFE"
  by (simp add: remainingHours_10h calculateLocalPriority_def calculatePriority_def
        toLegacyPriority_def CRITICAL_THRESHOLD_HOURS_def WARNING_THRESHOLD_HOURS_def)


section \<open>Fired threshold keys\<close>

lemma firedKeys_append: "firedKeys (xs @ ys) = firedKeys xs @ firedKeys ys"
  by (induction xs rule: firedKeys.induct) simp_all

lemma firedKeys_map: "firedKeys (map ThresholdFired ks) = ks"
  by (induction ks) simp_all

lemma scanPre_Some:
  "scanPre ts prevDiff diff triggered = Some key \<Longrightarrow> key \<notin> triggered \<and> (\<exists>ms. (key, ms) \<in> set ts)"
  by (induction ts prevDiff diff triggered rule: scanPre.induct)
     (auto simp: Let_def split: if_splits)

lemma scanPost_Some:
  "scanPost ts prevElapsed elapsed triggered = Some key \<Longrightarrow> key \<notin> triggered \<and> (\<exists>ms. (key, ms) \<in> set ts)"
  by (induction ts prevElapsed elapsed triggered rule: scanPost.induct)
     (auto simp: Let_def split: if_splits)

lemma scanPre_find:
  "scanPre ts prevDiff diff triggered =
     map_option fst (List.find (\<lambda>(key, ms).
        (case prevDiff of None \<Rightarrow> True | Some p \<Rightarrow> p > ms) \<and> diff \<le> ms \<and> key \<notin> triggered) ts)"
  by (induction ts prevDiff diff triggered rule: scanPre.induct) (simp_all add: Let_def)

lemma scanPost_find:
  "scanPost ts prevElapsed elapsed triggered =
     map_option fst (List.find (\<lambda>(key, ms).
        prevElapsed < ms \<and> elapsed \<ge> ms \<and> key \<notin> triggered) ts)"
  by (induction ts prevElapsed elapsed triggered rule: scanPost.induct) (simp_all add: Let_def)

lemma evaluateThresholds_fired:
  assumes "evaluateThresholds prevDiff diff triggered = (fired, triggered')"
  shows "distinct fired" and "set fired \<inter> triggered = {}" and "triggered' = triggered \<union> set fired"
    and "length fired \<le> 2" and "diff \<noteq> 0 \<Longrightarrow> length fired \<le> 1"
  using assms
  by (auto simp: evaluateThresholds_def Let_def split: if_splits option.splits prod.splits
           dest: scanPre_Some scanPost_Some)

lemma tierTransition_keys:
  assumes "tierTransition live st = (st1, events)"
  shows "firedKeys events = []" and "length events \<le> 1"
    and "events = [] \<or> events = [TierTransition]"
    and "toCanonicalPriority (prevPriorityRef st) = toCanonicalPriority live \<or> toCanonicalPriority live = CRITICAL
         \<Longrightarrow> triggeredThresholdsRef st1 = triggeredThresholdsRef st"
  using assms by (auto simp: tierTransition_def Let_def split: if_splits)

lemma evaluateSchedule_firedInv:
  assumes inv: "firedInv st fired"
    and stay: "\<not> leavesCritical deadline estimatedTime now st"
    and ev: "evaluateSchedule deadline estimatedTime False now st diff = (st', events)"
  shows "firedInv st' (fired @ firedKeys events)"
proof -
  let ?live = "calculateLocalPriority (Some deadline) estimatedTime now"
  obtain st1 ev1 where tt: "tierTransition ?live st = (st1, ev1)"
    by (cases "tierTransition ?live st")
  obtain keys trig where th: "evaluateThresholds (prevRemainingRef st1) diff (triggeredThresholdsRef st1) = (keys, trig)"
    by (cases "evaluateThresholds (prevRemainingRef st1) diff (triggeredThresholdsRef st1)")
  note k = tierTransition_keys(1)[OF tt] evaluateThresholds_fired(1-3)[OF th]
  show ?thesis
  proof (cases "toCanonicalPriority ?live = CRITICAL")
    case True
    have keep: "triggeredThresholdsRef st1 = triggeredThresholdsRef st"
      using tierTransition_keys(4)[OF tt] True by simp
    have crit1: "toCanonicalPriority (prevPriorityRef st1) = CRITICAL"
      using tt True by (auto simp: tierTransition_def Let_def split: if_splits)
    from inv have d: "distinct fired" and sub: "set fired \<subseteq> triggeredThresholdsRef st"
      by (simp_all add: firedInv_def)
    show ?thesis
    proof (cases "ev1 = []")
      case True
      with ev tt th \<open>toCanonicalPriority ?live = CRITICAL\<close>
      have e: "events = map ThresholdFired keys"
        "st' = st1\<lparr>triggeredThresholdsRef := trig, prevRemainingRef := Some diff\<rparr>"
        by (simp_all add: evaluateSchedule_def Let_def)
      show ?thesis
        unfolding e firedInv_def firedKeys_map
        using d sub k(2-4) keep crit1 by auto
    next
      case False
      with ev tt \<open>toCanonicalPriority ?live = CRITICAL\<close>
      have e: "events = ev1" "st' = st1\<lparr>prevRemainingRef := Some diff\<rparr>"
        by (simp_all add: evaluateSchedule_def Let_def)
      show ?thesis
        unfolding e firedInv_def using d sub k(1) keep crit1 by simp
    qed
  next
    case False
    with stay have "toCanonicalPriority (prevPriorityRef st) \<noteq> CRITICAL"
      by (simp add: leavesCritical_def)
    with inv have f: "fired = []" by (simp add: firedInv_def)
    from ev tt False have e: "events = ev1" by (simp add: evaluateSchedule_def Let_def)
    show ?thesis unfolding e f firedInv_def using k(1) by simp
  qed
qed

lemma ticks_firedInv:
  "firedInv st fired \<Longrightarrow> staysCritical deadline estimatedTime st clocks \<Longrightarrow>
   ticks deadline estimatedTime False st clocks = (st', events) \<Longrightarrow>
   firedInv st' (fired @ firedKeys events)"
proof (induction clocks arbitrary: st st' events fired)
  case Nil
  then show ?case by simp
next
  case (Cons clock rest)
  obtain st1 ev1 where c: "calc deadline estimatedTime False st clock = (st1, ev1)"
    by (cases "calc deadline estimatedTime False st clock")
  obtain st2 ev2 where r: "ticks deadline estimatedTime False st1 rest = (st2, ev2)"
    by (cases "ticks deadline estimatedTime False st1 rest")
  from Cons.prems(2) c have nl: "\<not> leavesCritical deadline estimatedTime (snd clock) st"
    and sr: "staysCritical deadline estimatedTime st1 rest" by simp_all
  from Cons.prems(3) c r have ev: "events = ev1 @ ev2" and st': "st' = st2" by simp_all
  note h1 = evaluateSchedule_firedInv[OF Cons.prems(1) nl c[unfolded calc_def]]
  from Cons.IH[OF h1 sr r] show ?case unfolding ev st' firedKeys_append by simp
qed

lemma count_list_firedKeys:
  "count_list events (ThresholdFired key) = count_list (firedKeys events) key"
  by (induction events rule: firedKeys.induct) simp_all

lemma distinct_count_list_le1: "distinct xs \<Longrightarrow> count_list xs x \<le> Suc 0"
  by (induction xs) auto

text \<open>
  Claim C1. Over any sequence of ticks of one effect instance (one deadline, one
  estimate) of a task that is not completed, in which no tick finds the previous tier
  CRITICAL and the live tier not CRITICAL, each threshold key, whichever of the six
  pre-deadline keys, \<open>deadline-hit\<close> or the three post-deadline keys, is the key of at
  most one alert event. Nothing is assumed about the clock values of the ticks, so the
  gaps between ticks are arbitrary, and the sequence may start in SAFE or WARNING.
\<close>

theorem C1_threshold_at_most_once:
  assumes "\<not> isCompleted" and "staysCritical deadline estimatedTime st clocks"
  shows "count_list (snd (ticks deadline estimatedTime isCompleted st clocks)) (ThresholdFired key) \<le> 1"
proof -
  from assms(1) have c: "isCompleted = False" by simp
  obtain st' events where t: "ticks deadline estimatedTime False st clocks = (st', events)"
    by (cases "ticks deadline estimatedTime False st clocks")
  have "firedInv st []" by (simp add: firedInv_def)
  from ticks_firedInv[OF this assms(2) t] have "distinct (firedKeys events)"
    by (simp add: firedInv_def)
  then show ?thesis
    unfolding c using t by (simp add: distinct_count_list_le1 count_list_firedKeys)
qed

text \<open>A task due at 100000000 ms and mounted in SAFE, ticked at five times with gaps of
  up to 16 hours: the tier rises to WARNING and to CRITICAL, then three different keys
  fire, each once.\<close>

theorem C1_witness:
  "\<not> False
   \<and> staysCritical 100000000 None
      \<lparr>prevPriorityRef = Canon SAFE, prevRemainingRef = Some 100000000,
       triggeredThresholdsRef = {}, shouldShowNag = False\<rparr>
      [(20000000, 20000000), (79000000, 79000000), (83000000, 83000000),
       (98500000, 98500000), (104000000, 104000000)]
   \<and> snd (ticks 100000000 None False
      \<lparr>prevPriorityRef = Canon SAFE, prevRemainingRef = Some 100000000,
       triggeredThresholdsRef = {}, shouldShowNag = False\<rparr>
      [(20000000, 20000000), (79000000, 79000000), (83000000, 83000000),
       (98500000, 98500000), (104000000, 104000000)])
     = [TierTransition, TierTransition, ThresholdFired ''pre-5h'', ThresholdFired ''pre-30m'',
        ThresholdFired ''post-1h'']
   \<and> count_list (snd (ticks 100000000 None False
      \<lparr>prevPriorityRef = Canon SAFE, prevRemainingRef = Some 100000000,
       triggeredThresholdsRef = {}, shouldShowNag = False\<rparr>
      [(20000000, 20000000), (79000000, 79000000), (83000000, 83000000),
       (98500000, 98500000), (104000000, 104000000)])) (ThresholdFired ''pre-30m'') \<le> 1"
proof -
  have n: "\<not> False" by simp
  have h: "staysCritical 100000000 None
      \<lparr>prevPriorityRef = Canon SAFE, prevRemainingRef = Some 100000000,
       triggeredThresholdsRef = {}, shouldShowNag = False\<rparr>
      [(20000000, 20000000), (79000000, 79000000), (83000000, 83000000),
       (98500000, 98500000), (104000000, 104000000)]"
    by code_simp
  have e: "snd (ticks 100000000 None False
      \<lparr>prevPriorityRef = Canon SAFE, prevRemainingRef = Some 100000000,
       triggeredThresholdsRef = {}, shouldShowNag = False\<rparr>
      [(20000000, 20000000), (79000000, 79000000), (83000000, 83000000),
       (98500000, 98500000), (104000000, 104000000)])
     = [TierTransition, TierTransition, ThresholdFired ''pre-5h'', ThresholdFired ''pre-30m'',
        ThresholdFired ''post-1h'']"
    by code_simp
  show ?thesis
    using h e C1_threshold_at_most_once [OF n h, of "''pre-30m''"] by simp
qed


section \<open>Events of one tick\<close>

lemma evaluateThresholds_shape:
  assumes "evaluateThresholds prevDiff diff triggered = (fired, triggered')"
  shows "fired = [] \<or> (\<exists>key. fired = [key])
         \<or> (diff = 0 \<and> (\<exists>key ms. (key, ms) \<in> set PRE_DEADLINE_THRESHOLDS_ASC
                              \<and> fired = [key, ''deadline-hit'']))"
  using assms
  by (auto simp: evaluateThresholds_def Let_def split: if_splits option.splits prod.splits
           dest: scanPre_Some)

lemma evaluateSchedule_shape:
  assumes "evaluateSchedule deadline estimatedTime isCompleted now st diff = (st', events)"
  shows "events = [] \<or> events = [TierTransition] \<or> (\<exists>key. events = [ThresholdFired key])
         \<or> (diff = 0 \<and> (\<exists>key ms. (key, ms) \<in> set PRE_DEADLINE_THRESHOLDS_ASC
                \<and> events = [ThresholdFired key, ThresholdFired ''deadline-hit'']))"
proof -
  obtain st1 ev1 where tt: "tierTransition (calculateLocalPriority (Some deadline) estimatedTime now) st = (st1, ev1)"
    by (cases "tierTransition (calculateLocalPriority (Some deadline) estimatedTime now) st")
  obtain fired trig where th: "evaluateThresholds (prevRemainingRef st1) diff (triggeredThresholdsRef st1) = (fired, trig)"
    by (cases "evaluateThresholds (prevRemainingRef st1) diff (triggeredThresholdsRef st1)")
  show ?thesis
    using assms tt th tierTransition_keys(3)[OF tt] evaluateThresholds_shape[OF th]
    by (auto simp: evaluateSchedule_def Let_def split: if_splits)
qed

text \<open>
  Claim C4, as amended. A tick on which the remaining time is not exactly 0 triggers at
  most one alert event, and no tick triggers more than two. A tick that triggers a
  tier-transition event triggers nothing else. Each of the two scans returns the key of
  the first threshold, in list order, that is crossed and not yet fired, and no other.
\<close>

theorem C4_events_per_tick:
  "(diff \<noteq> 0 \<longrightarrow> length (snd (evaluateSchedule deadline estimatedTime isCompleted now st diff)) \<le> 1)
   \<and> (TierTransition \<in> set (snd (evaluateSchedule deadline estimatedTime isCompleted now st diff))
        \<longrightarrow> snd (evaluateSchedule deadline estimatedTime isCompleted now st diff) = [TierTransition])
   \<and> length (snd (evaluateSchedule deadline estimatedTime isCompleted now st diff)) \<le> 2
   \<and> scanPre ts prevDiff diff triggered =
       map_option fst (List.find (\<lambda>(key, ms).
          (case prevDiff of None \<Rightarrow> True | Some p \<Rightarrow> p > ms) \<and> diff \<le> ms \<and> key \<notin> triggered) ts)
   \<and> scanPost ts prevElapsed elapsed triggered =
       map_option fst (List.find (\<lambda>(key, ms).
          prevElapsed < ms \<and> elapsed \<ge> ms \<and> key \<notin> triggered) ts)"
proof -
  obtain st' events where e: "evaluateSchedule deadline estimatedTime isCompleted now st diff = (st', events)"
    by (cases "evaluateSchedule deadline estimatedTime isCompleted now st diff")
  from evaluateSchedule_shape[OF e] have
    "(diff \<noteq> 0 \<longrightarrow> length events \<le> 1) \<and> (TierTransition \<in> set events \<longrightarrow> events = [TierTransition])
     \<and> length events \<le> 2"
    by auto
  then show ?thesis using e scanPre_find scanPost_find by simp
qed

text \<open>A tick 10 minutes before the deadline whose predecessor ran at 5 h 30 min: the
  thresholds from 5 h down to 30 min were all skipped, and only \<open>pre-30m\<close> fires.\<close>

theorem C4_witness:
  "(600000::int) \<noteq> 0
   \<and> snd (evaluateSchedule 19800000 None False 19200000
        \<lparr>prevPriorityRef = Canon CRITICAL, prevRemainingRef = Some 19800000,
         triggeredThresholdsRef = {}, shouldShowNag = True\<rparr> 600000) = [ThresholdFired ''pre-30m'']
   \<and> length (snd (evaluateSchedule 19800000 None False 19200000
        \<lparr>prevPriorityRef = Canon CRITICAL, prevRemainingRef = Some 19800000,
         triggeredThresholdsRef = {}, shouldShowNag = True\<rparr> 600000)) \<le> 1"
  using C4_events_per_tick [of 600000 19800000 None False 19200000
        "\<lparr>prevPriorityRef = Canon CRITICAL, prevRemainingRef = Some 19800000,
         triggeredThresholdsRef = {}, shouldShowNag = True\<rparr>" "[]" None "{}" 0 0]
  by code_simp

text \<open>A tick exactly at the deadline whose predecessor ran an hour before it triggers two
  events, \<open>pre-30m\<close> and \<open>deadline-hit\<close>.\<close>

theorem C4_counterexample:
  "snd (evaluateSchedule 3600000 None False 3600000
        \<lparr>prevPriorityRef = Canon CRITICAL, prevRemainingRef = Some 3600000,
         triggeredThresholdsRef = {}, shouldShowNag = True\<rparr> 0)
     = [ThresholdFired ''pre-30m'', ThresholdFired ''deadline-hit'']
   \<and> \<not> length (snd (evaluateSchedule 3600000 None False 3600000
        \<lparr>prevPriorityRef = Canon CRITICAL, prevRemainingRef = Some 3600000,
         triggeredThresholdsRef = {}, shouldShowNag = True\<rparr> 0)) \<le> 1"
  by code_simp


section \<open>Completed tasks\<close>

lemma ticks_completed:
  "snd (ticks deadline estimatedTime True st clocks) = []"
  by (induction clocks arbitrary: st) (simp_all add: calc_def evaluateSchedule_def split: prod.splits)

text \<open>
  Claim C7. A tick on a completed task triggers no alert event; all it does to the
  scheduler state is empty the set of fired threshold keys and store the current diff as
  the previous remaining time, and so no sequence of ticks on a task that stays completed
  triggers an event.
\<close>

theorem C7_completed_tick_silent:
  "evaluateSchedule deadline estimatedTime True now st diff =
     (st\<lparr>prevRemainingRef := Some diff, triggeredThresholdsRef := {}\<rparr>, [])
   \<and> snd (ticks deadline estimatedTime True st clocks) = []"
  by (simp add: evaluateSchedule_def ticks_completed)


section \<open>Suppression of the first alert\<close>

text \<open>
  Claim C3, as amended. When the effect reaches a pending alert and no alert of this
  task instance was handled before, the alert is swallowed exactly when the task was
  created less than 60 seconds ago and the tier stored at mount is not SAFE; otherwise it
  is dispatched. The live tier is not consulted. Either way the alert is marked as
  consumed.
\<close>

theorem C3_initial_suppression:
  assumes "alertReady showNag aiMsg completed sty key refs"
    and "\<not> hasSkippedInitialEventRef refs"
  shows "((snd (dispatchEffect showNag aiMsg completed sty key createdAt live now notif speech refs)
            = SkippedInitial)
          = (withinWindow createdAt now \<and> initialPriorityRef refs \<noteq> Canon SAFE))
     \<and> ((\<exists>actions. snd (dispatchEffect showNag aiMsg completed sty key createdAt live now notif speech refs)
            = Dispatched actions)
          = (\<not> (withinWindow createdAt now \<and> initialPriorityRef refs \<noteq> Canon SAFE)))
     \<and> fst (dispatchEffect showNag aiMsg completed sty key createdAt live now notif speech refs)
          = refs\<lparr>hasSkippedInitialEventRef := True, lastSpeechKeyRef := key,
                 pendingSpeechKeyRef := None\<rparr>"
proof -
  from assms(1) obtain m where m: "aiMsg = Some m" "m \<noteq> []"
    by (cases aiMsg) (auto simp: alertReady_def)
  from assms(1) have r: "refs\<lparr>prevStyleRef := sty\<rparr> = refs"
    by (simp add: alertReady_def)
  show ?thesis
    using assms m r
    by (simp add: alertReady_def dispatchEffect_def Let_def toLegacyPriority_def)
qed

text \<open>A WARNING task created 10 seconds ago whose first alert is ready: swallowed. The
  same task created two minutes ago: dispatched.\<close>

theorem C3_witness:
  "alertReady True (Some ''late'') False TSUNDERE 1
      \<lparr>hasSkippedInitialEventRef = False, prevStyleRef = TSUNDERE, pendingSpeechKeyRef = Some 1,
       lastSpeechKeyRef = - 1, lastLoadedKeyRef = Some 1, initialPriorityRef = Canon WARNING\<rparr>
   \<and> \<not> hasSkippedInitialEventRef
      \<lparr>hasSkippedInitialEventRef = False, prevStyleRef = TSUNDERE, pendingSpeechKeyRef = Some 1,
       lastSpeechKeyRef = - 1, lastLoadedKeyRef = Some 1, initialPriorityRef = Canon WARNING\<rparr>
   \<and> snd (dispatchEffect True (Some ''late'') False TSUNDERE 1 (Some 1000000) LEGACY_WARNING
           1010000 True True
      \<lparr>hasSkippedInitialEventRef = False, prevStyleRef = TSUNDERE, pendingSpeechKeyRef = Some 1,
       lastSpeechKeyRef = - 1, lastLoadedKeyRef = Some 1, initialPriorityRef = Canon WARNING\<rparr>)
       = SkippedInitial
   \<and> snd (dispatchEffect True (Some ''late'') False TSUNDERE 1 (Some 1000000) LEGACY_WARNING
           1120000 True True
      \<lparr>hasSkippedInitialEventRef = False, prevStyleRef = TSUNDERE, pendingSpeechKeyRef = Some 1,
       lastSpeechKeyRef = - 1, lastLoadedKeyRef = Some 1, initialPriorityRef = Canon WARNING\<rparr>)
       = Dispatched [Notify ''late'', OnSpeak ''late'' TSUNDERE]"
proof -
  let ?refs = "\<lparr>hasSkippedInitialEventRef = False, prevStyleRef = TSUNDERE,
       pendingSpeechKeyRef = Some 1, lastSpeechKeyRef = - 1, lastLoadedKeyRef = Some 1,
       initialPriorityRef = Canon WARNING\<rparr>"
  have a: "alertReady True (Some ''late'') False TSUNDERE 1 ?refs"
    by (simp add: alertReady_def)
  have b: "\<not> hasSkippedInitialEventRef ?refs" by simp
  have w: "withinWindow (Some 1000000) 1010000"
    by (simp add: withinWindow_def INITIAL_EVENT_SKIP_WINDOW_MS_def)
  have d: "snd (dispatchEffect True (Some ''late'') False TSUNDERE 1 (Some 1000000) LEGACY_WARNING
           1120000 True True ?refs) = Dispatched [Notify ''late'', OnSpeak ''late'' TSUNDERE]"
    by (simp add: dispatchEffect_def Let_def withinWindow_def INITIAL_EVENT_SKIP_WINDOW_MS_def)
  from C3_initial_suppression [OF a b, of "Some 1000000" LEGACY_WARNING 1010000 True True] a b w d
  show ?thesis by simp
qed

text \<open>
  A task created at 1000000 ms with 6 h and 5 s left is WARNING; ten seconds later it is
  CRITICAL and the tick triggers a tier-transition event. The live tier differs from the
  tier at creation, yet the effect swallows this first alert.
\<close>

theorem C3_counterexample:
  "calculateLocalPriority (Some 22605000) None 1000000 = Canon WARNING
   \<and> calculatePriority (Some 22605000) None 1010000 = LEGACY_CRITICAL
   \<and> snd (evaluateSchedule 22605000 None False 1010000
        \<lparr>prevPriorityRef = Canon WARNING, prevRemainingRef = Some 21605000,
         triggeredThresholdsRef = {}, shouldShowNag = True\<rparr> 21595000) = [TierTransition]
   \<and> withinWindow (Some 1000000) 1010000
   \<and> toCanonicalPriority LEGACY_CRITICAL \<noteq> toCanonicalPriority (Canon WARNING)
   \<and> snd (dispatchEffect True (Some ''late'') False TSUNDERE 1 (Some 1000000) LEGACY_CRITICAL
           1010000 True True
      \<lparr>hasSkippedInitialEventRef = False, prevStyleRef = TSUNDERE, pendingSpeechKeyRef = Some 1,
       lastSpeechKeyRef = - 1, lastLoadedKeyRef = Some 1, initialPriorityRef = Canon WARNING\<rparr>)
       = SkippedInitial"
  by code_simp


section \<open>Normalisation at the data-store boundary\<close>

text \<open>
  Claim C9, as amended. \<open>toDateSafe\<close> returns null for null, for undefined, for the empty
  string, for a \<open>Date\<close> whose time is \<open>NaN\<close> and for a string that does not parse to a
  valid date; it returns a valid \<open>Date\<close> and the date a non-empty string parses to as
  they are, and the \<open>toDate()\<close> of a Firestore \<open>Timestamp\<close> unchecked.
  \<open>normalizeEstimatedTime\<close> returns null for \<open>NaN\<close> and for the two infinities, given
  as numbers or as what a string converts to, and for a value that is neither number nor
  string; it returns every finite number unchanged, a negative one too. These cases cover
  every input: each call returns one of the values stated, and no statement of either
  function can throw.
\<close>

theorem C9_normalisation:
  "toDateSafe DNull = None \<and> toDateSafe DUndefined = None
   \<and> toDateSafe (DDate d) = (if getTime d = None then None else Some d)
   \<and> toDateSafe (DTimestamp d) = Some d
   \<and> toDateSafe (DString text d) = (if text = [] \<or> getTime d = None then None else Some d)
   \<and> normalizeEstimatedTime (UNumber (Finite r)) = Some (Finite r)
   \<and> normalizeEstimatedTime (UNumber NaN) = None
   \<and> normalizeEstimatedTime (UNumber PosInfinity) = None
   \<and> normalizeEstimatedTime (UNumber NegInfinity) = None
   \<and> normalizeEstimatedTime (UString text (Finite r)) = Some (Finite r)
   \<and> normalizeEstimatedTime (UString text NaN) = None
   \<and> normalizeEstimatedTime (UString text PosInfinity) = None
   \<and> normalizeEstimatedTime (UString text NegInfinity) = None
   \<and> normalizeEstimatedTime UOther = None"
  by (simp add: toDateSafe_def normalizeEstimatedTime_def)

text \<open>A valid date as \<open>Date\<close>, \<open>Timestamp\<close> and string, an invalid date, an invalid date
  string, the estimate 2, and strings that convert to \<open>NaN\<close> and to \<open>Infinity\<close>.\<close>

theorem C9_witness:
  "toDateSafe (DDate (Date (Some 1704067200000))) = Some (Date (Some 1704067200000))
   \<and> toDateSafe (DTimestamp (Date (Some 1704067200000))) = Some (Date (Some 1704067200000))
   \<and> toDateSafe (DString ''2024-01-01'' (Date (Some 1704067200000)))
        = Some (Date (Some 1704067200000))
   \<and> toDateSafe (DDate (Date None)) = None
   \<and> toDateSafe (DString ''tomorrow-ish'' (Date None)) = None
   \<and> normalizeEstimatedTime (UNumber (Finite 2)) = Some (Finite 2)
   \<and> normalizeEstimatedTime (UString ''tomorrow-ish'' NaN) = None
   \<and> normalizeEstimatedTime (UString ''tomorrow-ish'' PosInfinity) = None"
  using C9_normalisation [of "Date (Some 1704067200000)" "''2024-01-01''" 2]
    C9_normalisation [of "Date None" "''tomorrow-ish''" 2]
  by simp

text \<open>The estimate \<open>-5\<close>, a negative number, is returned as it is, not as null.\<close>

theorem C9_counterexample:
  "normalizeEstimatedTime (UNumber (Finite (- 5))) = Some (Finite (- 5))
   \<and> normalizeEstimatedTime (UNumber (Finite (- 5))) \<noteq> None"
  by (simp add: normalizeEstimatedTime_def)


section \<open>The speech queue: one call at a time\<close>

lemma settledIds_append: "settledIds (xs @ ys) = settledIds xs @ settledIds ys"
  by (induction xs rule: settledIds.induct) simp_all



lemma flush_empty: "speechQueueRef s = [] \<Longrightarrow> flushSpeechQueue en s = (s, [])"
  by (simp add: flushSpeechQueue_def)

lemma flush_shift:
  assumes "\<not> isSpeakingRef s" and "speechQueueRef s = j # rest"
  shows "flushSpeechQueue True s =
     (if speechCacheRef s (style j, message j) = None \<or> speechCacheRef s (style j, message j) = Some []
      then (s\<lparr>speechQueueRef := rest, isSpeakingRef := True,
              flights := flights s @ [(j, AwaitingFetch)]\<rparr>, [FetchTts (message j) (style j)])
      else (s\<lparr>speechQueueRef := rest, isSpeakingRef := True, audioRef := Some (promise j),
              flights := flights s @ [(j, AwaitingPlayback)]\<rparr>, [Play (promise j)]))"
  using assms by (simp add: flushSpeechQueue_def startPlayback_def Let_def)

lemma flush_takes_head:
  assumes "\<not> isSpeakingRef s" and "speechQueueRef s = j # rest"
    and "flushSpeechQueue True s = (s', acts)"
  shows "speechQueueRef s' = rest" and "isSpeakingRef s'"
    and "flights s' = flights s @ [(j, phaseFor j s)]"
    and "playedIds acts = (if phaseFor j s = AwaitingPlayback then [promise j] else [])"
    and "settledIds acts = []" and "nextPromise s' = nextPromise s"
    and "speechEnabled s' = speechEnabled s" and "speechCacheRef s' = speechCacheRef s"
    and "pausedAudio s' = pausedAudio s" and "selectedStyle s' = selectedStyle s"
  using assms(3) unfolding flush_shift[OF assms(1,2)] phaseFor_def
  by (simp_all split: if_splits) auto







lemma serialInv_audioRef [simp]: "serialInv n0 (s\<lparr>audioRef := a\<rparr>) tr = serialInv n0 s tr"
  by (simp add: serialInv_def flightIds_def queueIds_def playingIds_def)















section \<open>The speech queue: a failed playback\<close>






section \<open>The speech queue: calls that queue nothing\<close>

text \<open>
  Claim C10. A call of \<open>handleSpeak\<close> while speech is disabled, or with an empty
  message, returns a promise that is already resolved and changes nothing: the whole
  state (queue, cache, speaking flag, audio element) is as before, and nothing is done
  to the outside, whatever the \<open>interrupt\<close> option.
\<close>

theorem C10_disabled_or_empty:
  assumes "\<not> speechEnabled s \<or> msg = []"
  shows "handleSpeak msg styleArg interrupt s = (ResolvedImmediately, s, [])"
  using assms by (auto simp: handleSpeak_def)

text \<open>A call with \<open>interrupt\<close> while speech is disabled.\<close>

theorem C10_witness:
  "\<not> speechEnabled \<lparr>speechEnabled = False, selectedStyle = TSUNDERE, speechCacheRef = (\<lambda>k. None),
         speechQueueRef = [], isSpeakingRef = False, audioRef = None, flights = [],
         pausedAudio = {}, nextPromise = 3\<rparr>
   \<and> handleSpeak ''late again'' None True
        \<lparr>speechEnabled = False, selectedStyle = TSUNDERE, speechCacheRef = (\<lambda>k. None),
         speechQueueRef = [], isSpeakingRef = False, audioRef = None, flights = [],
         pausedAudio = {}, nextPromise = 3\<rparr>
     = (ResolvedImmediately,
        \<lparr>speechEnabled = False, selectedStyle = TSUNDERE, speechCacheRef = (\<lambda>k. None),
         speechQueueRef = [], isSpeakingRef = False, audioRef = None, flights = [],
         pausedAudio = {}, nextPromise = 3\<rparr>, [])"
  using C10_disabled_or_empty [of "\<lparr>speechEnabled = False, selectedStyle = TSUNDERE, speechCacheRef = (\<lambda>k. None),
         speechQueueRef = [], isSpeakingRef = False, audioRef = None, flights = [],
         pausedAudio = {}, nextPromise = 3\<rparr>" "''late again''" None True]
  by simp


section \<open>The speech queue: interrupt\<close>

lemma flush_general:
  assumes "flushSpeechQueue en s = (s', acts)"
  shows "settledIds acts = []" and "nextPromise s' = nextPromise s"
    and "set (flightIds s') \<union> set (queueIds s') = set (flightIds s) \<union> set (queueIds s)"
proof -
  have all: "settledIds acts = [] \<and> nextPromise s' = nextPromise s
    \<and> set (flightIds s') \<union> set (queueIds s') = set (flightIds s) \<union> set (queueIds s)"
  proof (cases "en \<and> \<not> isSpeakingRef s")
    case False
    then have "flushSpeechQueue en s = (s, [])" by (auto simp: flushSpeechQueue_def)
    with assms show ?thesis by simp
  next
    case True
    show ?thesis
    proof (cases "speechQueueRef s")
      case Nil
      from flush_empty[OF Nil, of en] assms show ?thesis by simp
    next
      case (Cons j rest)
      from True have en: "en = True" and ns: "\<not> isSpeakingRef s" by simp_all
      note h = flush_takes_head[OF ns Cons assms[unfolded en]]
      show ?thesis using h(1,3,5,6) Cons by (auto simp: flightIds_def queueIds_def)
    qed
  qed
  from all show "settledIds acts = []" by blast
  from all show "nextPromise s' = nextPromise s" by blast
  from all show "set (flightIds s') \<union> set (queueIds s') = set (flightIds s) \<union> set (queueIds s)"
    by blast
qed

lemma flush_dropped:
  assumes "dropped p s" and "flushSpeechQueue en s = (s', acts)"
  shows "dropped p s' \<and> p \<notin> set (settledIds acts)"
  using assms(1) flush_general[OF assms(2)] unfolding dropped_def by auto

lemma flightJob_Some:
  assumes "flightJob p ph s = Some job"
  shows "promise job = p" and "p \<in> set (flightIds s)"
proof -
  from assms obtain x where f: "List.find (\<lambda>(j, ph'). promise j = p \<and> ph' = ph) (flights s) = Some x"
    and x: "fst x = job" by (auto simp: flightJob_def)
  from f have "x \<in> set (flights s)" and "promise (fst x) = p"
    by (auto simp: find_Some_iff case_prod_beta)
  then show "promise job = p" and "p \<in> set (flightIds s)"
    using x by (auto simp: flightIds_def case_prod_beta)
qed

lemma settle_dropped:
  assumes "dropped p s" and "promise job \<in> set (flightIds s)" and "settle job ok s = (s', acts)"
  shows "dropped p s' \<and> p \<notin> set (settledIds acts)"
proof -
  let ?s1 = "s\<lparr>flights := filter (\<lambda>(j, ph). promise j \<noteq> promise job) (flights s),
                 isSpeakingRef := False\<rparr>"
  have d1: "dropped p ?s1" using assms(1) by (auto simp: dropped_def flightIds_def queueIds_def)
  have ne: "p \<noteq> promise job" using assms(1,2) by (auto simp: dropped_def)
  show ?thesis
  proof (cases "speechQueueRef s = []")
    case True
    with assms(3) have "s' = ?s1" "settledIds acts = [promise job]"
      by (auto simp: settle_def Let_def)
    with d1 ne show ?thesis by simp
  next
    case False
    obtain s2 acts2 where f: "flushSpeechQueue True ?s1 = (s2, acts2)"
      by (cases "flushSpeechQueue True ?s1")
    from assms(3) False f have e: "s' = s2" "settledIds acts = promise job # settledIds acts2"
      by (auto simp: settle_def Let_def)
    from flush_dropped[OF d1 f] e ne show ?thesis by simp
  qed
qed

lemma dropped_audioRef [simp]: "dropped p (s\<lparr>audioRef := a\<rparr>) = dropped p s"
  by (simp add: dropped_def flightIds_def queueIds_def)

lemma flightIds_audioRef [simp]: "flightIds (s\<lparr>audioRef := a\<rparr>) = flightIds s"
  by (simp add: flightIds_def)

lemma pauseCurrent_facts:
  assumes "pauseCurrent s = (s', acts)"
  shows "flights s' = flights s" and "speechQueueRef s' = speechQueueRef s"
    and "nextPromise s' = nextPromise s" and "settledIds acts = []" and "playedIds acts = []"
    and "speechEnabled s' = speechEnabled s" and "selectedStyle s' = selectedStyle s"
    and "speechCacheRef s' = speechCacheRef s" and "isSpeakingRef s' = isSpeakingRef s"
    and "audioRef s = Some a \<Longrightarrow> acts = [Pause a] \<and> pausedAudio s' = insert a (pausedAudio s)"
  using assms by (auto simp: pauseCurrent_def split: option.splits)

lemma handleSpeak_plain_state:
  assumes "speechEnabled s" and "msg \<noteq> []"
  shows "handleSpeak msg styleArg False s =
     (let s2 = s\<lparr>speechQueueRef := speechQueueRef s
              @ [\<lparr>message = msg,
                  style = (case styleArg of None \<Rightarrow> selectedStyle s | Some st \<Rightarrow> st),
                  promise = nextPromise s\<rparr>],
          nextPromise := Suc (nextPromise s)\<rparr>
      in (Pending (nextPromise s), fst (flushSpeechQueue True s2), snd (flushSpeechQueue True s2)))"
  using assms by (simp add: handleSpeak_def Let_def split: prod.splits)

lemma handleSpeak_interrupt:
  assumes "speechEnabled s" and "msg \<noteq> []"
  shows "handleSpeak msg styleArg True s =
     (let sp = fst (pauseCurrent (s\<lparr>speechQueueRef := []\<rparr>));
          actsp = snd (pauseCurrent (s\<lparr>speechQueueRef := []\<rparr>));
          s2 = sp\<lparr>isSpeakingRef := False,
                  speechQueueRef := speechQueueRef sp
                    @ [\<lparr>message = msg,
                        style = (case styleArg of None \<Rightarrow> selectedStyle s | Some st \<Rightarrow> st),
                        promise = nextPromise sp\<rparr>],
                  nextPromise := Suc (nextPromise sp)\<rparr>
      in (Pending (nextPromise sp), fst (flushSpeechQueue True s2),
          actsp @ snd (flushSpeechQueue True s2)))"
  using assms by (simp add: handleSpeak_def Let_def split: prod.splits)

lemma handleSpeak_dropped:
  assumes d: "dropped p s" and h: "handleSpeak msg styleArg interrupt s = (r, s', acts)"
  shows "dropped p s' \<and> p \<notin> set (settledIds acts)"
proof (cases "\<not> speechEnabled s \<or> msg = []")
  case True
  with h have "s' = s" "acts = []" by (auto simp: handleSpeak_def)
  with d show ?thesis by simp
next
  case False
  then have en: "speechEnabled s" and ne: "msg \<noteq> []" by simp_all
  show ?thesis
  proof (cases interrupt)
    case False
    let ?s2 = "s\<lparr>speechQueueRef := speechQueueRef s
              @ [\<lparr>message = msg,
                  style = (case styleArg of None \<Rightarrow> selectedStyle s | Some st \<Rightarrow> st),
                  promise = nextPromise s\<rparr>],
          nextPromise := Suc (nextPromise s)\<rparr>"
    obtain s3 acts3 where f: "flushSpeechQueue True ?s2 = (s3, acts3)"
      by (cases "flushSpeechQueue True ?s2")
    from h False have "handleSpeak msg styleArg False s = (r, s', acts)" by simp
    then have e: "s' = s3" "acts = acts3"
      by (simp_all add: handleSpeak_plain_state[OF en ne] Let_def f)
    have d2: "dropped p ?s2"
      using d by (auto simp: dropped_def flightIds_def queueIds_def)
    from flush_dropped[OF d2 f] show ?thesis unfolding e .
  next
    case True
    obtain sp actsp where pc: "pauseCurrent (s\<lparr>speechQueueRef := []\<rparr>) = (sp, actsp)"
      by (cases "pauseCurrent (s\<lparr>speechQueueRef := []\<rparr>)")
    note pf = pauseCurrent_facts(1-4)[OF pc]
    let ?s2 = "sp\<lparr>isSpeakingRef := False,
                  speechQueueRef := speechQueueRef sp
                    @ [\<lparr>message = msg,
                        style = (case styleArg of None \<Rightarrow> selectedStyle s | Some st \<Rightarrow> st),
                        promise = nextPromise sp\<rparr>],
                  nextPromise := Suc (nextPromise sp)\<rparr>"
    obtain s3 acts3 where f: "flushSpeechQueue True ?s2 = (s3, acts3)"
      by (cases "flushSpeechQueue True ?s2")
    from h True have "handleSpeak msg styleArg True s = (r, s', acts)" by simp
    then have e: "s' = s3" "acts = actsp @ acts3"
      by (simp_all add: handleSpeak_interrupt[OF en ne] Let_def f pc)
    have d2: "dropped p ?s2"
      using d pf by (auto simp: dropped_def flightIds_def queueIds_def)
    from flush_dropped[OF d2 f] pf(4) show ?thesis unfolding e by (simp add: settledIds_append)
  qed
qed

lemma step_dropped:
  assumes d: "dropped p s" and st: "step e s = (s', acts)"
  shows "dropped p s' \<and> p \<notin> set (settledIds acts)"
proof (cases e)
  case (Speak msg styleArg interrupt)
  obtain r where "handleSpeak msg styleArg interrupt s = (r, s', acts)"
    using st Speak by (cases "handleSpeak msg styleArg interrupt s") simp
  from handleSpeak_dropped[OF d this] show ?thesis .
next
  case ToggleSpeech
  let ?t = "s\<lparr>speechEnabled := \<not> speechEnabled s\<rparr>"
  have dt: "dropped p ?t" using d by (simp add: dropped_def flightIds_def queueIds_def)
  show ?thesis
  proof (cases "speechEnabled ?t")
    case True
    with st ToggleSpeech have "flushSpeechQueue (speechEnabled ?t) ?t = (s', acts)"
      by (simp add: speechEnabledEffect_def)
    from flush_dropped[OF dt this] show ?thesis .
  next
    case False
    with st ToggleSpeech
    have pc: "pauseCurrent (?t\<lparr>speechQueueRef := [], isSpeakingRef := False\<rparr>) = (s', acts)"
      by (simp add: speechEnabledEffect_def split: prod.splits)
    note pf = pauseCurrent_facts(1-4)[OF pc]
    show ?thesis using d pf by (auto simp: dropped_def flightIds_def queueIds_def)
  qed
next
  case (FetchOk q format audioBase64)
  show ?thesis
  proof (cases "flightJob q AwaitingFetch s")
    case None
    with st FetchOk have "s' = s" "acts = []" by simp_all
    with d show ?thesis by simp
  next
    case (Some job)
    with st FetchOk flightJob_Some(1)[OF Some]
    have e: "acts = [Play q]" "speechQueueRef s' = speechQueueRef s"
      "nextPromise s' = nextPromise s"
      "flights s' = map (\<lambda>(j, ph). if promise j = q then (j, AwaitingPlayback) else (j, ph)) (flights s)"
      by (auto simp: startPlayback_def Let_def)
    have "flightIds s' = flightIds s"
      unfolding flightIds_def e(4) by (simp add: case_prod_beta comp_def)
    with d e show ?thesis by (simp add: dropped_def queueIds_def)
  qed
next
  case (FetchFailed q)
  show ?thesis
  proof (cases "flightJob q AwaitingFetch s")
    case None
    with st FetchFailed have "s' = s" "acts = []" by simp_all
    with d show ?thesis by simp
  next
    case (Some job)
    with st FetchFailed have se: "settle job False s = (s', acts)" by simp
    from flightJob_Some[OF Some] have "promise job \<in> set (flightIds s)" by simp
    from settle_dropped[OF d this se] show ?thesis .
  qed
next
  case (AudioEnded q)
  show ?thesis
  proof (cases "flightJob q AwaitingPlayback s")
    case None
    with st AudioEnded have "s' = s" "acts = []" by simp_all
    with d show ?thesis by simp
  next
    case (Some job)
    show ?thesis
    proof (cases "q \<in> pausedAudio s")
      case True
      with st AudioEnded Some have "s' = s" "acts = []" by simp_all
      with d show ?thesis by simp
    next
      case False
      with st AudioEnded Some have se: "settle job True (s\<lparr>audioRef := None\<rparr>) = (s', acts)" by simp
      from flightJob_Some[OF Some] have "promise job \<in> set (flightIds (s\<lparr>audioRef := None\<rparr>))" by simp
      from settle_dropped[OF _ this se] d show ?thesis by simp
    qed
  qed
next
  case (AudioError q)
  show ?thesis
  proof (cases "flightJob q AwaitingPlayback s")
    case None
    with st AudioError have "s' = s" "acts = []" by simp_all
    with d show ?thesis by simp
  next
    case (Some job)
    with st AudioError have se: "settle job False (s\<lparr>audioRef := None\<rparr>) = (s', acts)" by simp
    from flightJob_Some[OF Some] have "promise job \<in> set (flightIds (s\<lparr>audioRef := None\<rparr>))" by simp
    from settle_dropped[OF _ this se] d show ?thesis by simp
  qed
next
  case (PlayRejected q)
  show ?thesis
  proof (cases "flightJob q AwaitingPlayback s")
    case None
    with st PlayRejected have "s' = s" "acts = []" by simp_all
    with d show ?thesis by simp
  next
    case (Some job)
    with st PlayRejected have se: "settle job False s = (s', acts)" by simp
    from flightJob_Some[OF Some] have "promise job \<in> set (flightIds s)" by simp
    from settle_dropped[OF d this se] show ?thesis .
  qed
qed

lemma run_dropped:
  "dropped p s \<Longrightarrow> run es s = (s', acts) \<Longrightarrow> dropped p s' \<and> p \<notin> set (settledIds acts)"
proof (induction es arbitrary: s s' acts)
  case Nil
  then show ?case by simp
next
  case (Cons e es)
  obtain s1 acts1 where a: "step e s = (s1, acts1)" by (cases "step e s")
  obtain s2 acts2 where b: "run es s1 = (s2, acts2)" by (cases "run es s1")
  from Cons.prems(2) a b have e: "s' = s2" "acts = acts1 @ acts2" by simp_all
  from step_dropped[OF Cons.prems(1) a] have d1: "dropped p s1" and n1: "p \<notin> set (settledIds acts1)"
    by simp_all
  from Cons.IH[OF d1 b] n1 show ?case unfolding e by (simp add: settledIds_append)
qed

text \<open>
  Claim C6. While J1 is playing and J2, J3 wait, a call of \<open>handleSpeak\<close> with
  \<open>interrupt\<close> for a new job J4 pauses the element of J1, whose \<open>onended\<close> can then no
  longer arrive; it empties the queue and takes J4 at once, as the one job under way
  beside the stopped call of J1, so that the only element the call can start is the one
  of J4; and whatever happens afterwards, the promises of J2 and of J3 are neither
  resolved nor rejected.
\<close>

theorem C6_interrupt:
  assumes en: "speechEnabled s" and msg: "msg \<noteq> []"
    and fl: "flights s = [(J1, AwaitingPlayback)]" and au: "audioRef s = Some (promise J1)"
    and qu: "speechQueueRef s = [J2, J3]"
    and al: "promise J2 < nextPromise s" "promise J3 < nextPromise s"
    and di: "promise J2 \<noteq> promise J1" "promise J3 \<noteq> promise J1"
    and h: "handleSpeak msg styleArg True s = (r, s', acts)"
    and ru: "run es s' = (s'', tr)"
  shows "r = Pending (nextPromise s)
     \<and> Pause (promise J1) \<in> set acts \<and> promise J1 \<in> pausedAudio s'
     \<and> step (AudioEnded (promise J1)) s' = (s', [])
     \<and> speechQueueRef s' = [] \<and> isSpeakingRef s'
     \<and> (\<exists>ph. flights s' =
            [(J1, AwaitingPlayback),
             (\<lparr>message = msg,
               style = (case styleArg of None \<Rightarrow> selectedStyle s | Some st \<Rightarrow> st),
               promise = nextPromise s\<rparr>, ph)]
          \<and> playedIds acts = (if ph = AwaitingPlayback then [nextPromise s] else []))
     \<and> settledIds acts = []
     \<and> promise J2 \<notin> set (settledIds tr) \<and> promise J3 \<notin> set (settledIds tr)"
proof -
  let ?sp = "s\<lparr>speechQueueRef := [], pausedAudio := insert (promise J1) (pausedAudio s)\<rparr>"
  let ?J4 = "\<lparr>message = msg,
               style = (case styleArg of None \<Rightarrow> selectedStyle s | Some st \<Rightarrow> st),
               promise = nextPromise s\<rparr>"
  let ?s2 = "s\<lparr>pausedAudio := insert (promise J1) (pausedAudio s), isSpeakingRef := False,
               speechQueueRef := [?J4], nextPromise := Suc (nextPromise s)\<rparr>"
  have pc: "pauseCurrent (s\<lparr>speechQueueRef := []\<rparr>) = (?sp, [Pause (promise J1)])"
    using au by (simp add: pauseCurrent_def)
  obtain s3 acts3 where f: "flushSpeechQueue True ?s2 = (s3, acts3)"
    by (cases "flushSpeechQueue True ?s2")
  from h have e: "r = Pending (nextPromise s)" "s' = s3" "acts = Pause (promise J1) # acts3"
    by (simp_all add: handleSpeak_interrupt[OF en msg] Let_def pc f)
  have a: "\<not> isSpeakingRef ?s2" and b: "speechQueueRef ?s2 = ?J4 # []" by simp_all
  note k = flush_takes_head[OF a b f]
  have fl': "flights s' = [(J1, AwaitingPlayback), (?J4, phaseFor ?J4 ?s2)]"
    using k(3) fl e(2) by simp
  have pa: "promise J1 \<in> pausedAudio s'" using k(9) e(2) by simp
  have ended: "step (AudioEnded (promise J1)) s' = (s', [])"
    using pa by (simp split: option.splits)
  have np: "nextPromise s' = Suc (nextPromise s)" using k(6) e(2) by simp
  have q': "speechQueueRef s' = []" using k(1) e(2) by simp
  have d2: "dropped (promise J2) s'"
    using al(1) di(1) fl' q' np by (simp add: dropped_def flightIds_def queueIds_def)
  have d3: "dropped (promise J3) s'"
    using al(2) di(2) fl' q' np by (simp add: dropped_def flightIds_def queueIds_def)
  have pl: "playedIds acts = (if phaseFor ?J4 ?s2 = AwaitingPlayback then [nextPromise s] else [])"
    using k(4) e(3) by simp
  have se: "settledIds acts = []" using k(5) e(3) by simp
  have ex: "\<exists>ph. flights s' = [(J1, AwaitingPlayback), (?J4, ph)]
          \<and> playedIds acts = (if ph = AwaitingPlayback then [nextPromise s] else [])"
    using fl' pl by blast
  show ?thesis
    using e(1,3) pa ended q' k(2) e(2) ex se run_dropped[OF d2 ru] run_dropped[OF d3 ru]
    by simp
qed

text \<open>J1 (promise 0) is playing, J2 and J3 (promises 1 and 2) wait, and J4 interrupts.
  Afterwards the end of J1 does not arrive, J4 is synthesised, played and resolved, and
  events addressed to J2 and J3 find nothing.\<close>

theorem C6_witness:
  "snd (snd (handleSpeak ''J4'' None True
      \<lparr>speechEnabled = True, selectedStyle = TSUNDERE, speechCacheRef = (\<lambda>k. None),
       speechQueueRef = [\<lparr>message = ''J2'', style = TSUNDERE, promise = 1\<rparr>,
                         \<lparr>message = ''J3'', style = TSUNDERE, promise = 2\<rparr>],
       isSpeakingRef = True, audioRef = Some 0,
       flights = [(\<lparr>message = ''J1'', style = TSUNDERE, promise = 0\<rparr>, AwaitingPlayback)],
       pausedAudio = {}, nextPromise = 3\<rparr>))
     = [Pause 0, FetchTts ''J4'' TSUNDERE]
   \<and> snd (run [AudioEnded 0, FetchOk 3 None ''QQ=='', AudioEnded 3, AudioEnded 1, AudioError 2]
        (fst (snd (handleSpeak ''J4'' None True
      \<lparr>speechEnabled = True, selectedStyle = TSUNDERE, speechCacheRef = (\<lambda>k. None),
       speechQueueRef = [\<lparr>message = ''J2'', style = TSUNDERE, promise = 1\<rparr>,
                         \<lparr>message = ''J3'', style = TSUNDERE, promise = 2\<rparr>],
       isSpeakingRef = True, audioRef = Some 0,
       flights = [(\<lparr>message = ''J1'', style = TSUNDERE, promise = 0\<rparr>, AwaitingPlayback)],
       pausedAudio = {}, nextPromise = 3\<rparr>))))
     = [Play 3, Resolve 3]
   \<and> speechQueueRef (fst (snd (handleSpeak ''J4'' None True
      \<lparr>speechEnabled = True, selectedStyle = TSUNDERE, speechCacheRef = (\<lambda>k. None),
       speechQueueRef = [\<lparr>message = ''J2'', style = TSUNDERE, promise = 1\<rparr>,
                         \<lparr>message = ''J3'', style = TSUNDERE, promise = 2\<rparr>],
       isSpeakingRef = True, audioRef = Some 0,
       flights = [(\<lparr>message = ''J1'', style = TSUNDERE, promise = 0\<rparr>, AwaitingPlayback)],
       pausedAudio = {}, nextPromise = 3\<rparr>))) = []"
proof -
  let ?J1 = "\<lparr>message = ''J1'', style = TSUNDERE, promise = 0\<rparr>"
  let ?J2 = "\<lparr>message = ''J2'', style = TSUNDERE, promise = 1\<rparr>"
  let ?J3 = "\<lparr>message = ''J3'', style = TSUNDERE, promise = 2\<rparr>"
  let ?s = "\<lparr>speechEnabled = True, selectedStyle = TSUNDERE, speechCacheRef = (\<lambda>k. None),
       speechQueueRef = [?J2, ?J3],
       isSpeakingRef = True, audioRef = Some 0,
       flights = [(?J1, AwaitingPlayback)],
       pausedAudio = {}, nextPromise = 3\<rparr>"
  let ?h = "handleSpeak ''J4'' None True ?s"
  let ?es = "[AudioEnded 0, FetchOk 3 None ''QQ=='', AudioEnded 3, AudioEnded 1, AudioError 2]"
  have h: "?h = (fst ?h, fst (snd ?h), snd (snd ?h))" by simp
  have ru: "run ?es (fst (snd ?h)) = (fst (run ?es (fst (snd ?h))), snd (run ?es (fst (snd ?h))))"
    by simp
  have t1: "snd (snd ?h) = [Pause 0, FetchTts ''J4'' TSUNDERE]" by code_simp
  have t2: "snd (run ?es (fst (snd ?h))) = [Play 3, Resolve 3]" by code_simp
  have c: "speechEnabled ?s" "''J4'' \<noteq> []" "flights ?s = [(?J1, AwaitingPlayback)]"
    "audioRef ?s = Some (promise ?J1)" "speechQueueRef ?s = [?J2, ?J3]"
    "promise ?J2 < nextPromise ?s" "promise ?J3 < nextPromise ?s"
    "promise ?J2 \<noteq> promise ?J1" "promise ?J3 \<noteq> promise ?J1"
    by simp_all
  from C6_interrupt[OF c h ru] t1 t2 show ?thesis by simp
qed

end
